theory Spec2Isabelle
  imports Complex_Main "HOL-Library.Word"
begin

section \<open>ReAgentLightningModule and StoppingEpochCallback\<close>

text \<open>
  A shallow embedding of \<^verbatim>\<open>reagent/training/reagent_lightning_module.py\<close>.
  Every method is a function from the object's state (and its arguments) to
  an outcome and the state the call leaves behind. A Python exception is the
  outcome \<open>Raised\<close>; the attributes assigned before the \<^verbatim>\<open>raise\<close> stay
  assigned, so the state is returned in that case too.
\<close>

subsection \<open>Exceptions and outcomes\<close>

datatype exc =
    StopIteration
  | RuntimeError string
  | NotImplementedError
  | UnboundLocalError string
  | AttributeError string
  | AssertionError
  | ValueError string
  | IndexError string
  | OtherException string

datatype 'a outcome = Returned 'a | Raised exc

subsection \<open>Generators\<close>

text \<open>
  What \<^verbatim>\<open>train_step_gen\<close> returns is consumed with \<^verbatim>\<open>next\<close> only. A generator
  is the rest of its run: it yields a value and goes on, it returns (then
  \<^verbatim>\<open>next\<close> raises StopIteration), or its body raises. The type is coinductive:
  a generator may yield for ever.
\<close>

codatatype 'v gen = Return | Raise exc | Yield 'v "'v gen"

text \<open>
  \<^verbatim>\<open>next(g)\<close>: the value or the exception, and the generator afterwards. A
  generator that has returned or raised is finished: every later \<^verbatim>\<open>next\<close>
  raises StopIteration.
\<close>

definition next_gen :: "'v gen \<Rightarrow> (exc + 'v) \<times> 'v gen" where
  "next_gen g =
     (case g of
        Return \<Rightarrow> (Inl StopIteration, Return)
      | Raise e \<Rightarrow> (Inl e, Return)
      | Yield v g' \<Rightarrow> (Inr v, g'))"

text \<open>The values of the first \<open>n\<close> calls of \<^verbatim>\<open>next\<close>, up to the first one that raises.\<close>

primrec gen_take :: "nat \<Rightarrow> 'v gen \<Rightarrow> 'v list" where
  "gen_take 0 g = []"
| "gen_take (Suc n) g =
     (case next_gen g of
        (Inl e, g') \<Rightarrow> []
      | (Inr v, g') \<Rightarrow> v # gen_take n g')"

text \<open>The generator after \<open>n\<close> calls of \<^verbatim>\<open>next\<close>.\<close>

primrec gen_drop :: "nat \<Rightarrow> 'v gen \<Rightarrow> 'v gen" where
  "gen_drop 0 g = g"
| "gen_drop (Suc n) g = gen_drop n (snd (next_gen g))"

subsection \<open>Objects of the host framework\<close>

text \<open>
  The reporter is used through \<^verbatim>\<open>flush(epoch)\<close> only. \<^verbatim>\<open>DummyExperiment\<close> answers
  every method with a no-op; any other reporter is modelled by the list of
  epochs it has been flushed with.
\<close>

datatype reporter = DummyExperiment | Reporter (flushed: "int list")

fun flush :: "reporter \<Rightarrow> int \<Rightarrow> reporter" where
  "flush DummyExperiment epoch = DummyExperiment"
| "flush (Reporter es) epoch = Reporter (es @ [epoch])"

text \<open>
  Loggers carry an object identity (\<^verbatim>\<open>is\<close> compares it); a TensorBoardLogger
  carries its \<^verbatim>\<open>experiment\<close>, a LoggerCollection its \<^verbatim>\<open>_logger_iterable\<close>.
\<close>

datatype pl_logger =
    TensorBoardLogger nat nat
  | OtherLogger nat
  | LoggerCollection nat "pl_logger list"

fun logger_id :: "pl_logger \<Rightarrow> nat" where
  "logger_id (TensorBoardLogger i w) = i"
| "logger_id (OtherLogger i) = i"
| "logger_id (LoggerCollection i ls) = i"

text \<open>\<^verbatim>\<open>a is b\<close> on two attributes that hold a logger or None.\<close>

definition is_same :: "pl_logger option \<Rightarrow> pl_logger option \<Rightarrow> bool" where
  "is_same a b = (map_option logger_id a = map_option logger_id b)"

fun is_LoggerCollection :: "pl_logger option \<Rightarrow> bool" where
  "is_LoggerCollection (Some (LoggerCollection i ls)) = True"
| "is_LoggerCollection l = False"

record trainer =
  should_stop :: bool

datatype train_result = TrainResult "real option"

subsection \<open>One-dimensional tensors\<close>

text \<open>
  A one-dimensional tensor is the list of its elements; the \<^verbatim>\<open>int32\<close> dtype is
  \<open>32 word\<close>, read as a signed number by \<open>sint\<close>. \<^verbatim>\<open>t.item()\<close> asks for exactly
  one element, \<^verbatim>\<open>t[0] = v\<close> for at least one.
\<close>

definition item :: "'a list \<Rightarrow> exc + 'a" where
  "item t =
     (case t of
        [x] \<Rightarrow> Inr x
      | _ \<Rightarrow> Inl (ValueError ''only one element tensors can be converted to Python scalars''))"

definition setitem0 :: "'a list \<Rightarrow> 'a \<Rightarrow> exc + 'a list" where
  "setitem0 t v =
     (case t of
        [] \<Rightarrow> Inl (IndexError ''index 0 is out of bounds for dimension 0 with size 0'')
      | x # xs \<Rightarrow> Inr (v # xs))"

text \<open>A Python integer that a 64-bit signed integer can hold.\<close>

definition fits_int64 :: "int \<Rightarrow> bool" where
  "fits_int64 n \<longleftrightarrow> - (2 ^ 63) \<le> n \<and> n < 2 ^ 63"

text \<open>
  \<^verbatim>\<open>t += n\<close> on an int32 tensor. A Python integer outside the int64 range is
  refused with a RuntimeError before anything is written; otherwise \<open>n\<close> is
  added element by element, modulo \<open>2 ^ 32\<close>.
\<close>

definition iadd :: "32 word list \<Rightarrow> int \<Rightarrow> exc + 32 word list" where
  "iadd t n =
     (if fits_int64 n then Inr (map (\<lambda>x. x + word_of_int n) t)
      else Inl (RuntimeError ''Overflow when unpacking long''))"

subsection \<open>The module's state\<close>

text \<open>
  The attributes of a \<^verbatim>\<open>ReAgentLightningModule\<close>. The leading underscore of a
  private attribute is dropped; \<^verbatim>\<open>_reporter\<close> and \<^verbatim>\<open>_summary_writer\<close> are
  \<open>reporter_attr\<close> and \<open>summary_writer_attr\<close>, since the properties have the
  plain names. The last five fields belong to the host: \<^verbatim>\<open>logger\<close>,
  \<^verbatim>\<open>current_epoch\<close> and \<^verbatim>\<open>trainer\<close> are set by the trainer,
  \<open>num_optimizing_steps\<close> is the cached value of the lazy property
  \<^verbatim>\<open>len(self.configure_optimizers())\<close>, and \<open>summary_writer_context\<close> is the
  state of the class \<^verbatim>\<open>SummaryWriterContext\<close>.
\<close>

record ('v, 'g) module =
  training_step_generator :: "'v gen option"
  reporter_attr :: "reporter option"
  verified_steps :: bool
  summary_writer_logger :: "pl_logger option"
  summary_writer_attr :: "nat option"
  registered_buffers :: "string list"
  next_stopping_epoch :: "32 word list"
  cleanly_stopped :: "bool list"
  logger :: "pl_logger option"
  current_epoch :: int
  trainer :: "trainer option"
  num_optimizing_steps :: nat
  summary_writer_context :: 'g

text \<open>
  \<^verbatim>\<open>__init__\<close>, applied to the object that \<^verbatim>\<open>super().__init__()\<close> has set up.
  \<^verbatim>\<open>register_buffer(name, None)\<close> enters the name among the module's buffers;
  the two assignments that follow give the buffers their tensors.
\<close>

definition register_buffer :: "('v, 'g) module \<Rightarrow> string \<Rightarrow> ('v, 'g) module" where
  "register_buffer self name =
     self\<lparr>registered_buffers := registered_buffers self @ [name]\<rparr>"

definition init :: "('v, 'g) module \<Rightarrow> ('v, 'g) module" where
  "init base =
     (let self = base\<lparr>training_step_generator := None,
                      reporter_attr := Some DummyExperiment,
                      verified_steps := False,
                      summary_writer_logger := None,
                      summary_writer_attr := None\<rparr>;
          self = register_buffer self ''_next_stopping_epoch'';
          self = register_buffer self ''_cleanly_stopped''
      in self\<lparr>next_stopping_epoch := [word_of_int (- 1)],
              cleanly_stopped := [True]\<rparr>)"

subsection \<open>Reporter and stopping epoch\<close>

text \<open>A method that ends in \<^verbatim>\<open>return self\<close> returns the state it leaves.\<close>

definition set_reporter ::
  "('v, 'g) module \<Rightarrow> reporter option \<Rightarrow> ('v, 'g) module outcome \<times> ('v, 'g) module" where
  "set_reporter self reporter =
     (let reporter = (case reporter of None \<Rightarrow> Some DummyExperiment | Some r \<Rightarrow> Some r);
          self = self\<lparr>reporter_attr := reporter\<rparr>
      in (Returned self, self))"

definition reporter :: "('v, 'g) module \<Rightarrow> reporter option" where
  "reporter self = reporter_attr self"

definition increase_next_stopping_epochs ::
  "('v, 'g) module \<Rightarrow> int \<Rightarrow> ('v, 'g) module outcome \<times> ('v, 'g) module" where
  "increase_next_stopping_epochs self num_epochs =
     (case iadd (next_stopping_epoch self) num_epochs of
        Inl e \<Rightarrow> (Raised e, self)
      | Inr t \<Rightarrow>
          (let self = self\<lparr>next_stopping_epoch := t\<rparr>
           in case setitem0 (cleanly_stopped self) False of
                Inl e \<Rightarrow> (Raised e, self)
              | Inr t \<Rightarrow>
                  (let self = self\<lparr>cleanly_stopped := t\<rparr>
                   in (Returned self, self))))"

subsection \<open>The generator interface\<close>

text \<open>
  \<^verbatim>\<open>train_step_gen\<close> of the base class raises; a subclass overrides it. The
  functions below take the method in force as the parameter \<open>tsg\<close>: it
  returns a generator or raises.
\<close>

definition train_step_gen :: "'b \<Rightarrow> int \<Rightarrow> exc + 'v gen" where
  "train_step_gen training_batch batch_idx = Inl NotImplementedError"

text \<open>
  \<^verbatim>\<open>soft_update_result\<close>: a TrainResult around the dummy loss \<^verbatim>\<open>one + one\<close>.
\<close>

definition soft_update_result :: "('v, 'g) module \<Rightarrow> train_result outcome \<times> ('v, 'g) module" where
  "soft_update_result self = (Returned (TrainResult (Some (1 + 1))), self)"

text \<open>
  \<^verbatim>\<open>training_step\<close>. \<open>igs\<close> is \<^verbatim>\<open>SummaryWriterContext.increase_global_step\<close>, a
  class method of another file of the repository, taken as a parameter on the
  state of that class.
\<close>

definition training_step ::
  "('b \<Rightarrow> int \<Rightarrow> exc + 'v gen) \<Rightarrow> ('g \<Rightarrow> 'g) \<Rightarrow> ('v, 'g) module \<Rightarrow> 'b \<Rightarrow> int \<Rightarrow> int
     \<Rightarrow> 'v outcome \<times> ('v, 'g) module" where
  "training_step tsg igs self batch batch_idx optimizer_idx =
     (case (case training_step_generator self of
              None \<Rightarrow> tsg batch batch_idx
            | Some g \<Rightarrow> Inr g) of
        Inl e \<Rightarrow> (Raised e, self)
      | Inr g \<Rightarrow>
          (case next_gen g of
             (Inl e, g1) \<Rightarrow> (Raised e, self\<lparr>training_step_generator := Some g1\<rparr>)
           | (Inr ret, g1) \<Rightarrow>
               (let self = self\<lparr>training_step_generator := Some g1\<rparr>
                in if optimizer_idx = int (num_optimizing_steps self) - 1 then
                     (if \<not> verified_steps self then
                        (case next_gen g1 of
                           (Inl StopIteration, g2) \<Rightarrow>
                             (Returned ret,
                              self\<lparr>training_step_generator := None,
                                   verified_steps := True,
                                   summary_writer_context := igs (summary_writer_context self)\<rparr>)
                         | (Inl e, g2) \<Rightarrow>
                             (Raised e, self\<lparr>training_step_generator := Some g2\<rparr>)
                         | (Inr extra, g2) \<Rightarrow>
                             (Raised (RuntimeError ''training_step_gen() yields too many times''),
                              self\<lparr>training_step_generator := Some g2\<rparr>))
                      else
                        (Returned ret,
                         self\<lparr>training_step_generator := None,
                              summary_writer_context := igs (summary_writer_context self)\<rparr>))
                   else (Returned ret, self))))"

subsection \<open>The summary writer\<close>

text \<open>
  The loop of the first branch: the experiment of the first TensorBoardLogger
  of the collection, if there is one.
\<close>

fun first_tensorboard :: "pl_logger list \<Rightarrow> nat option" where
  "first_tensorboard [] = None"
| "first_tensorboard (TensorBoardLogger i w # ls) = Some w"
| "first_tensorboard (l # ls) = first_tensorboard ls"

text \<open>
  Reading a local variable: the value when it is bound, UnboundLocalError when
  it is not.
\<close>

definition load_local :: "string \<Rightarrow> 'a option \<Rightarrow> exc + 'a" where
  "load_local name v = (case v of None \<Rightarrow> Inl (UnboundLocalError name) | Some x \<Rightarrow> Inr x)"

text \<open>
  The property \<^verbatim>\<open>summary_writer\<close>. The \<^verbatim>\<open>for\<close> statement assigns \<^verbatim>\<open>logger\<close>, so
  the name is a local variable of the whole function body, and it is bound by
  the loop only. In the \<^verbatim>\<open>elif\<close> branch nothing has bound it: the local is
  \<open>None :: pl_logger option\<close> there.
\<close>

definition summary_writer :: "('v, 'g) module \<Rightarrow> nat option outcome \<times> ('v, 'g) module" where
  "summary_writer self =
     (if is_same (summary_writer_logger self) (logger self) then
        (Returned (summary_writer_attr self), self)
      else
        (let self = self\<lparr>summary_writer_attr := None\<rparr>;
             self = self\<lparr>summary_writer_logger := logger self\<rparr>
         in if is_LoggerCollection (logger self) then
              (case logger self of
                 Some (LoggerCollection i ls) \<Rightarrow>
                   (let self = (case first_tensorboard ls of
                                  None \<Rightarrow> self
                                | Some w \<Rightarrow> self\<lparr>summary_writer_attr := Some w\<rparr>)
                    in (Returned (summary_writer_attr self), self))
               | _ \<Rightarrow> (Returned (summary_writer_attr self), self))
            else
              (case load_local ''logger'' (None :: pl_logger option) of
                 Inl e \<Rightarrow> (Raised e, self)
               | Inr l \<Rightarrow>
                   (let self = (case l of
                                  TensorBoardLogger i w \<Rightarrow> self\<lparr>summary_writer_attr := Some w\<rparr>
                                | _ \<Rightarrow> self)
                    in (Returned (summary_writer_attr self), self)))))"

subsection \<open>The end of an epoch\<close>

definition training_epoch_end ::
  "('v, 'g) module \<Rightarrow> 'o \<Rightarrow> train_result outcome \<times> ('v, 'g) module" where
  "training_epoch_end self training_step_outputs =
     (case reporter self of
        None \<Rightarrow> (Raised (AttributeError ''flush''), self)
      | Some r \<Rightarrow>
          (let self = self\<lparr>reporter_attr := Some (flush r (current_epoch self))\<rparr>
           in case item (next_stopping_epoch self) of
                Inl e \<Rightarrow> (Raised e, self)
              | Inr stop \<Rightarrow>
                  if current_epoch self = sint stop then
                    (case trainer self of
                       None \<Rightarrow> (Raised (AttributeError ''should_stop''), self)
                     | Some t \<Rightarrow>
                         (Returned (TrainResult None),
                          self\<lparr>trainer := Some (t\<lparr>should_stop := True\<rparr>)\<rparr>))
                  else (Returned (TrainResult None), self)))"

subsection \<open>StoppingEpochCallback\<close>

record stopping_epoch_callback =
  num_epochs :: int

definition callback_init :: "int \<Rightarrow> stopping_epoch_callback" where
  "callback_init n = \<lparr>num_epochs = n\<rparr>"

text \<open>
  The module handed to a callback is any LightningModule; the assertion lets
  a \<^verbatim>\<open>ReAgentLightningModule\<close> through. The log line does not touch the module.
\<close>

datatype ('v, 'g) pl_module =
    ReAgentLightningModule "('v, 'g) module"
  | OtherLightningModule

definition on_pretrain_routine_end ::
  "stopping_epoch_callback \<Rightarrow> trainer \<Rightarrow> ('v, 'g) pl_module
     \<Rightarrow> unit outcome \<times> ('v, 'g) pl_module" where
  "on_pretrain_routine_end self the_trainer pl_module =
     (case pl_module of
        OtherLightningModule \<Rightarrow> (Raised AssertionError, pl_module)
      | ReAgentLightningModule m \<Rightarrow>
          (case item (cleanly_stopped m) of
             Inl e \<Rightarrow> (Raised e, pl_module)
           | Inr stopped \<Rightarrow>
               if stopped then
                 (case increase_next_stopping_epochs m (num_epochs self) of
                    (Raised e, m') \<Rightarrow> (Raised e, ReAgentLightningModule m')
                  | (Returned r, m') \<Rightarrow> (Returned (), ReAgentLightningModule m'))
               else (Returned (), pl_module)))"

subsection \<open>The host's calls\<close>

text \<open>The generator a call of \<^verbatim>\<open>training_step\<close> draws from (lines 88 to 89).\<close>

definition generator_in_use ::
  "('b \<Rightarrow> int \<Rightarrow> exc + 'v gen) \<Rightarrow> ('v, 'g) module \<Rightarrow> 'b \<Rightarrow> int \<Rightarrow> exc + 'v gen" where
  "generator_in_use tsg m b i =
     (case training_step_generator m of None \<Rightarrow> tsg b i | Some g \<Rightarrow> Inr g)"

text \<open>
  The host calls \<^verbatim>\<open>training_step\<close> once per optimizer, in the order of the
  optimizer indices; an exception ends the run.
\<close>

fun training_steps ::
  "('b \<Rightarrow> int \<Rightarrow> exc + 'v gen) \<Rightarrow> ('g \<Rightarrow> 'g) \<Rightarrow> ('v, 'g) module \<Rightarrow> ('b \<times> int \<times> int) list
     \<Rightarrow> 'v outcome list \<times> ('v, 'g) module" where
  "training_steps tsg igs m [] = ([], m)"
| "training_steps tsg igs m ((b, i, k) # cs) =
     (case training_step tsg igs m b i k of
        (Raised e, m') \<Rightarrow> ([Raised e], m')
      | (Returned v, m') \<Rightarrow>
          (case training_steps tsg igs m' cs of (os, m'') \<Rightarrow> (Returned v # os, m'')))"

text \<open>The calls for one batch with the optimizer indices \<open>lo, \<dots>, lo + n - 1\<close>.\<close>

fun batch_calls :: "'b \<Rightarrow> int \<Rightarrow> nat \<Rightarrow> nat \<Rightarrow> ('b \<times> int \<times> int) list" where
  "batch_calls b i lo 0 = []"
| "batch_calls b i lo (Suc n) = (b, i, int lo) # batch_calls b i (Suc lo) n"

text \<open>
  The module after the first \<open>n\<close> calls for a batch, when none of them was the
  last one: the generator \<open>g\<close> of the batch is stored, advanced \<open>n\<close> times.
\<close>

definition after_calls :: "('v, 'g) module \<Rightarrow> 'v gen \<Rightarrow> nat \<Rightarrow> ('v, 'g) module" where
  "after_calls m g n =
     (if n = 0 then m else m\<lparr>training_step_generator := Some (gen_drop n g)\<rparr>)"

text \<open>Any sequence of method calls on a module; the state is kept when a call raises.\<close>

datatype ('b, 'o) call =
    SetReporter "reporter option"
  | IncreaseNextStoppingEpochs int
  | SoftUpdateResult
  | SummaryWriter
  | TrainingStep 'b int int
  | TrainingEpochEnd 'o
  | OnPretrainRoutineEnd stopping_epoch_callback trainer

fun call_method ::
  "('b \<Rightarrow> int \<Rightarrow> exc + 'v gen) \<Rightarrow> ('g \<Rightarrow> 'g) \<Rightarrow> ('v, 'g) module \<Rightarrow> ('b, 'o) call
     \<Rightarrow> ('v, 'g) module" where
  "call_method tsg igs m (SetReporter r) = snd (set_reporter m r)"
| "call_method tsg igs m (IncreaseNextStoppingEpochs n) =
     snd (increase_next_stopping_epochs m n)"
| "call_method tsg igs m SoftUpdateResult = snd (soft_update_result m)"
| "call_method tsg igs m SummaryWriter = snd (summary_writer m)"
| "call_method tsg igs m (TrainingStep b i k) = snd (training_step tsg igs m b i k)"
| "call_method tsg igs m (TrainingEpochEnd outs) = snd (training_epoch_end m outs)"
| "call_method tsg igs m (OnPretrainRoutineEnd cb tr) =
     (case snd (on_pretrain_routine_end cb tr (ReAgentLightningModule m)) of
        ReAgentLightningModule m' \<Rightarrow> m'
      | OtherLightningModule \<Rightarrow> m)"

definition run_calls ::
  "('b \<Rightarrow> int \<Rightarrow> exc + 'v gen) \<Rightarrow> ('g \<Rightarrow> 'g) \<Rightarrow> ('v, 'g) module \<Rightarrow> ('b, 'o) call list
     \<Rightarrow> ('v, 'g) module" where
  "run_calls tsg igs m cs = foldl (call_method tsg igs) m cs"

text \<open>The two buffers are registered, and each holds a one-element tensor.\<close>

definition buffers_ok :: "('v, 'g) module \<Rightarrow> bool" where
  "buffers_ok m \<longleftrightarrow>
     registered_buffers m = [''_next_stopping_epoch'', ''_cleanly_stopped''] \<and>
     length (next_stopping_epoch m) = 1 \<and> length (cleanly_stopped m) = 1"

subsection \<open>Concrete objects\<close>

text \<open>
  A module as \<^verbatim>\<open>super().__init__()\<close> leaves it: no logger, no trainer, epoch 0,
  no buffer. It has two optimizers.
\<close>

definition fresh_base :: "(int, nat) module" where
  "fresh_base =
     \<lparr>training_step_generator = None, reporter_attr = None, verified_steps = False,
      summary_writer_logger = None, summary_writer_attr = None,
      registered_buffers = [], next_stopping_epoch = [], cleanly_stopped = [],
      logger = None, current_epoch = 0, trainer = None,
      num_optimizing_steps = 2, summary_writer_context = 0\<rparr>"

definition fresh_module :: "nat \<Rightarrow> (int, nat) module" where
  "fresh_module n = (init fresh_base)\<lparr>num_optimizing_steps := n\<rparr>"

text \<open>A generator that yields the elements of a list and returns.\<close>

fun yields :: "'v list \<Rightarrow> 'v gen" where
  "yields [] = Return"
| "yields (v # vs) = Yield v (yields vs)"

text \<open>An override of \<^verbatim>\<open>train_step_gen\<close> whose body yields the elements of \<open>vs\<close>.\<close>

definition yielding :: "'v list \<Rightarrow> unit \<Rightarrow> int \<Rightarrow> exc + 'v gen" where
  "yielding vs batch batch_idx = Inr (yields vs)"

text \<open>A module with a reporter of its own, attached to a trainer, in a given epoch.\<close>

definition attached_module :: "int \<Rightarrow> (int, nat) module" where
  "attached_module epoch =
     (fresh_module 2)\<lparr>reporter_attr := Some (Reporter []), current_epoch := epoch,
                      trainer := Some \<lparr>should_stop = False\<rparr>\<rparr>"

text \<open>A module whose trainer has set a logger.\<close>

definition logging_module :: "pl_logger \<Rightarrow> (int, nat) module" where
  "logging_module l = (fresh_module 2)\<lparr>logger := Some l\<rparr>"

section \<open>Auxiliary facts\<close>

subsection \<open>Generators\<close>

lemma gen_take_Suc_alt:
  "gen_take (Suc n) g =
     (case fst (next_gen g) of Inl e \<Rightarrow> [] | Inr v \<Rightarrow> v # gen_take n (snd (next_gen g)))"
  by (simp split: prod.splits sum.splits)

lemma gen_take_Suc_length:
  assumes "length (gen_take (Suc n) g) = Suc n"
  shows "\<exists>v. fst (next_gen g) = Inr v \<and> gen_take (Suc n) g = v # gen_take n (snd (next_gen g))
        \<and> length (gen_take n (snd (next_gen g))) = n"
proof (cases "fst (next_gen g)")
  case (Inl e)
  with assms show ?thesis by (simp only: gen_take_Suc_alt) simp
next
  case (Inr v)
  with assms show ?thesis by (simp only: gen_take_Suc_alt) simp
qed

lemma gen_take_prefix:
  "length (gen_take (Suc n) g) = Suc n \<Longrightarrow> length (gen_take n g) = n"
proof (induction n arbitrary: g)
  case 0
  then show ?case by simp
next
  case (Suc n)
  from gen_take_Suc_length[OF Suc.prems] obtain v where
    v: "fst (next_gen g) = Inr v" "length (gen_take (Suc n) (snd (next_gen g))) = Suc n"
    by blast
  from Suc.IH[OF v(2)] v(1) show ?case by (simp only: gen_take_Suc_alt[of n]) simp
qed

lemma gen_drop_Suc_right: "gen_drop (Suc n) g = snd (next_gen (gen_drop n g))"
  by (induction n arbitrary: g) simp_all

lemma gen_take_snoc:
  "length (gen_take (Suc n) g) = Suc n \<Longrightarrow>
     \<exists>v. fst (next_gen (gen_drop n g)) = Inr v \<and> gen_take (Suc n) g = gen_take n g @ [v]"
proof (induction n arbitrary: g)
  case 0
  from gen_take_Suc_length[OF 0] show ?case by auto
next
  case (Suc n)
  from gen_take_Suc_length[OF Suc.prems] obtain v where
    v: "fst (next_gen g) = Inr v" "length (gen_take (Suc n) (snd (next_gen g))) = Suc n"
    by blast
  from Suc.IH[OF v(2)] obtain w where
    w: "fst (next_gen (gen_drop n (snd (next_gen g)))) = Inr w"
       "gen_take (Suc n) (snd (next_gen g)) = gen_take n (snd (next_gen g)) @ [w]"
    by blast
  have "gen_take (Suc (Suc n)) g = v # gen_take (Suc n) (snd (next_gen g))"
    using v(1) by (simp only: gen_take_Suc_alt[of "Suc n"]) simp
  also have "\<dots> = (v # gen_take n (snd (next_gen g))) @ [w]"
    by (simp only: w(2)) simp
  also have "v # gen_take n (snd (next_gen g)) = gen_take (Suc n) g"
    using v(1) by (simp only: gen_take_Suc_alt[of n]) simp
  finally have "gen_take (Suc (Suc n)) g = gen_take (Suc n) g @ [w]" .
  moreover have "fst (next_gen (gen_drop (Suc n) g)) = Inr w"
    using w(1) by simp
  ultimately show ?case by blast
qed

lemma last_map_nth: "length xs = Suc k \<Longrightarrow> last (map f xs) = f (xs ! k)"
  by (cases xs rule: rev_cases) (auto simp add: nth_append)

subsection \<open>One call of the training step\<close>

lemma training_step_other_index:
  assumes "generator_in_use tsg m b i = Inr g" "k \<noteq> int (num_optimizing_steps m) - 1"
  shows "training_step tsg igs m b i k =
     (case fst (next_gen g) of Inl e \<Rightarrow> Raised e | Inr v \<Rightarrow> Returned v,
      m\<lparr>training_step_generator := Some (snd (next_gen g))\<rparr>)"
  using assms
  by (auto simp add: training_step_def generator_in_use_def Let_def
      split: option.splits sum.splits prod.splits)

lemma training_step_last_verified:
  assumes "generator_in_use tsg m b i = Inr g" "k = int (num_optimizing_steps m) - 1"
    "verified_steps m" "fst (next_gen g) = Inr v"
  shows "training_step tsg igs m b i k =
     (Returned v, m\<lparr>training_step_generator := None,
                    summary_writer_context := igs (summary_writer_context m)\<rparr>)"
  using assms
  by (auto simp add: training_step_def generator_in_use_def Let_def
      split: option.splits sum.splits prod.splits)

lemma training_step_last_stop:
  assumes "generator_in_use tsg m b i = Inr g" "k = int (num_optimizing_steps m) - 1"
    "\<not> verified_steps m" "fst (next_gen g) = Inr v"
    "fst (next_gen (snd (next_gen g))) = Inl StopIteration"
  shows "training_step tsg igs m b i k =
     (Returned v, m\<lparr>training_step_generator := None, verified_steps := True,
                    summary_writer_context := igs (summary_writer_context m)\<rparr>)"
  using assms
  by (auto simp add: training_step_def generator_in_use_def Let_def
      split: option.splits sum.splits prod.splits)

lemma training_step_last_too_many:
  assumes "generator_in_use tsg m b i = Inr g" "k = int (num_optimizing_steps m) - 1"
    "\<not> verified_steps m" "fst (next_gen g) = Inr v"
    "fst (next_gen (snd (next_gen g))) = Inr v'"
  shows "training_step tsg igs m b i k =
     (Raised (RuntimeError ''training_step_gen() yields too many times''),
      m\<lparr>training_step_generator := Some (snd (next_gen (snd (next_gen g))))\<rparr>)"
  using assms
  by (auto simp add: training_step_def generator_in_use_def Let_def
      split: option.splits sum.splits prod.splits)

text \<open>With the \<^verbatim>\<open>train_step_gen\<close> of the base class every batch fails at its first call.\<close>

lemma training_step_base_class:
  "training_step_generator m = None \<Longrightarrow>
     training_step train_step_gen igs m b i k = (Raised NotImplementedError, m)"
  by (simp add: training_step_def train_step_gen_def)

lemma training_step_returned_last:
  assumes "fst (training_step tsg igs m b i k) = Returned v"
    "k = int (num_optimizing_steps m) - 1"
  shows "training_step_generator (snd (training_step tsg igs m b i k)) = None"
  using assms
  by (auto simp add: training_step_def Let_def
      split: option.splits sum.splits prod.splits exc.splits if_splits)

lemma training_step_fields:
  "registered_buffers (snd (training_step tsg igs m b i k)) = registered_buffers m"
  "next_stopping_epoch (snd (training_step tsg igs m b i k)) = next_stopping_epoch m"
  "cleanly_stopped (snd (training_step tsg igs m b i k)) = cleanly_stopped m"
  "reporter_attr (snd (training_step tsg igs m b i k)) = reporter_attr m"
  "verified_steps m \<Longrightarrow> verified_steps (snd (training_step tsg igs m b i k))"
  by (simp_all add: training_step_def Let_def
      split: option.splits sum.splits prod.splits exc.splits)

subsection \<open>The calls for one batch\<close>

lemma training_steps_single:
  "training_steps tsg igs m [(b, i, k)] =
     ([fst (training_step tsg igs m b i k)], snd (training_step tsg igs m b i k))"
  by (cases "training_step tsg igs m b i k") (auto split: outcome.splits)

lemma batch_calls_snoc:
  "batch_calls b i lo (Suc n) = batch_calls b i lo n @ [(b, i, int (lo + n))]"
proof (induction n arbitrary: lo)
  case 0
  show ?case by simp
next
  case (Suc n)
  have "batch_calls b i lo (Suc (Suc n)) = (b, i, int lo) # batch_calls b i (Suc lo) (Suc n)"
    by simp
  also have "\<dots> = (b, i, int lo) # (batch_calls b i (Suc lo) n @ [(b, i, int (Suc lo + n))])"
    by (simp only: Suc.IH)
  also have "\<dots> = batch_calls b i lo (Suc n) @ [(b, i, int (lo + Suc n))]"
    by simp
  finally show ?case .
qed

lemma training_steps_append:
  assumes "training_steps tsg igs m xs = (map Returned vs, m')"
  shows "training_steps tsg igs m (xs @ ys) =
     (map Returned vs @ fst (training_steps tsg igs m' ys), snd (training_steps tsg igs m' ys))"
  using assms
proof (induction xs arbitrary: m vs)
  case Nil
  then show ?case by simp
next
  case (Cons c xs)
  obtain b i k where c: "c = (b, i, k)" by (cases c)
  show ?case
  proof (cases "training_step tsg igs m b i k")
    case (Pair out m1)
    show ?thesis
    proof (cases out)
      case (Raised e)
      with Pair c Cons.prems have "[Raised e] = map Returned vs" by simp
      then show ?thesis by (cases vs) auto
    next
      case (Returned v)
      obtain os m2 where r: "training_steps tsg igs m1 xs = (os, m2)"
        by (cases "training_steps tsg igs m1 xs")
      with Pair c Returned Cons.prems have eq: "Returned v # os = map Returned vs" "m2 = m'"
        by simp_all
      then obtain vs' where vs': "vs = v # vs'" "os = map Returned vs'"
        by (cases vs) auto
      from Cons.IH[of m1 vs'] r vs' eq(2)
      have "training_steps tsg igs m1 (xs @ ys) =
         (map Returned vs' @ fst (training_steps tsg igs m' ys),
          snd (training_steps tsg igs m' ys))"
        by simp
      then show ?thesis using Pair c Returned vs' by simp
    qed
  qed
qed

lemma training_steps_middle:
  assumes "training_step_generator m = Some g" "length (gen_take n g) = n"
    "lo + n < num_optimizing_steps m"
  shows "training_steps tsg igs m (batch_calls b i lo n) =
     (map Returned (gen_take n g), m\<lparr>training_step_generator := Some (gen_drop n g)\<rparr>)"
  using assms
proof (induction n arbitrary: m g lo)
  case 0
  then show ?case by simp
next
  case (Suc n)
  from gen_take_Suc_length[OF Suc.prems(2)] obtain v where
    v: "fst (next_gen g) = Inr v" "gen_take (Suc n) g = v # gen_take n (snd (next_gen g))"
       "length (gen_take n (snd (next_gen g))) = n"
    by blast
  let ?m1 = "m\<lparr>training_step_generator := Some (snd (next_gen g))\<rparr>"
  have use: "generator_in_use tsg m b i = Inr g"
    using Suc.prems(1) by (simp add: generator_in_use_def)
  have idx: "int lo \<noteq> int (num_optimizing_steps m) - 1"
    using Suc.prems(3) by simp
  have step: "training_step tsg igs m b i (int lo) = (Returned v, ?m1)"
    using training_step_other_index[OF use idx, of igs] v(1) by simp
  have rest: "training_steps tsg igs ?m1 (batch_calls b i (Suc lo) n) =
     (map Returned (gen_take n (snd (next_gen g))),
      ?m1\<lparr>training_step_generator := Some (gen_drop n (snd (next_gen g)))\<rparr>)"
    using Suc.prems(3) by (intro Suc.IH) (simp_all add: v(3))
  have "training_steps tsg igs m (batch_calls b i lo (Suc n)) =
     (Returned v # map Returned (gen_take n (snd (next_gen g))),
      ?m1\<lparr>training_step_generator := Some (gen_drop n (snd (next_gen g)))\<rparr>)"
    using step rest by simp
  then show ?case by (simp only: v(2)) simp
qed

lemma training_steps_batch_prefix:
  assumes "training_step_generator m = None" "tsg b i = Inr g"
    "length (gen_take n g) = n" "n < num_optimizing_steps m"
  shows "training_steps tsg igs m (batch_calls b i 0 n) =
     (map Returned (gen_take n g), after_calls m g n)"
proof (cases n)
  case 0
  then show ?thesis by (simp add: after_calls_def)
next
  case (Suc n')
  from gen_take_Suc_length[of n' g] assms(3) Suc obtain v where
    v: "fst (next_gen g) = Inr v" "gen_take (Suc n') g = v # gen_take n' (snd (next_gen g))"
       "length (gen_take n' (snd (next_gen g))) = n'"
    by blast
  let ?m1 = "m\<lparr>training_step_generator := Some (snd (next_gen g))\<rparr>"
  have use: "generator_in_use tsg m b i = Inr g"
    using assms(1,2) by (simp add: generator_in_use_def)
  have idx: "int 0 \<noteq> int (num_optimizing_steps m) - 1"
    using assms(4) Suc by simp
  have step: "training_step tsg igs m b i (int 0) = (Returned v, ?m1)"
    using training_step_other_index[OF use idx, of igs] v(1) by simp
  have rest: "training_steps tsg igs ?m1 (batch_calls b i (Suc 0) n') =
     (map Returned (gen_take n' (snd (next_gen g))),
      ?m1\<lparr>training_step_generator := Some (gen_drop n' (snd (next_gen g)))\<rparr>)"
    using assms(4) Suc by (intro training_steps_middle) (simp_all add: v(3))
  have "training_steps tsg igs m (batch_calls b i 0 (Suc n')) =
     (Returned v # map Returned (gen_take n' (snd (next_gen g))),
      ?m1\<lparr>training_step_generator := Some (gen_drop n' (snd (next_gen g)))\<rparr>)"
    using step rest by simp
  then show ?thesis unfolding Suc by (simp only: v(2)) (simp add: after_calls_def)
qed

lemma training_steps_batch_last:
  assumes "training_step_generator m = None" "tsg b i = Inr g"
    "length (gen_take k g) = k" "k < num_optimizing_steps m"
  shows "training_steps tsg igs m (batch_calls b i 0 (Suc k)) =
     (map Returned (gen_take k g) @ [fst (training_step tsg igs (after_calls m g k) b i (int k))],
      snd (training_step tsg igs (after_calls m g k) b i (int k)))"
proof -
  have "training_steps tsg igs m (batch_calls b i 0 k @ [(b, i, int k)]) =
     (map Returned (gen_take k g) @ fst (training_steps tsg igs (after_calls m g k) [(b, i, int k)]),
      snd (training_steps tsg igs (after_calls m g k) [(b, i, int k)]))"
    by (rule training_steps_append)
       (rule training_steps_batch_prefix[where tsg = tsg and b = b and i = i, OF assms])
  then show ?thesis
    by (simp only: batch_calls_snoc training_steps_single) simp
qed

text \<open>The whole batch, when the last call gets past the check of the steps.\<close>

lemma training_steps_batch_complete:
  assumes "training_step_generator m = None" and "tsg b i = Inr g"
    and "Suc k = num_optimizing_steps m"
    and "length (gen_take (Suc k) g) = Suc k"
    and "verified_steps m \<or> fst (next_gen (gen_drop (Suc k) g)) = Inl StopIteration"
  shows "fst (training_steps tsg igs m (batch_calls b i 0 (Suc k))) =
           map Returned (gen_take (Suc k) g)"
    and "training_step_generator (snd (training_steps tsg igs m (batch_calls b i 0 (Suc k)))) = None"
    and "verified_steps (snd (training_steps tsg igs m (batch_calls b i 0 (Suc k))))"
proof -
  from gen_take_snoc[OF assms(4)] obtain v where
    v: "fst (next_gen (gen_drop k g)) = Inr v" "gen_take (Suc k) g = gen_take k g @ [v]"
    by blast
  have len: "length (gen_take k g) = k" using assms(4) by (rule gen_take_prefix)
  have k: "k < num_optimizing_steps m" using assms(3) by simp
  let ?m = "after_calls m g k"
  have use: "generator_in_use tsg ?m b i = Inr (gen_drop k g)"
    using assms(1,2) by (simp add: generator_in_use_def after_calls_def)
  have idx: "int k = int (num_optimizing_steps ?m) - 1"
    using assms(3) by (simp add: after_calls_def)
  have ver: "verified_steps ?m = verified_steps m" by (simp add: after_calls_def)
  have last: "fst (training_step tsg igs ?m b i (int k)) = Returned v \<and>
              training_step_generator (snd (training_step tsg igs ?m b i (int k))) = None \<and>
              verified_steps (snd (training_step tsg igs ?m b i (int k)))"
  proof (cases "verified_steps m")
    case True
    then show ?thesis
      using training_step_last_verified[OF use idx _ v(1), of igs] ver by simp
  next
    case False
    with assms(5)
    have "fst (next_gen (gen_drop (Suc k) g)) = Inl StopIteration" by simp
    then have "fst (next_gen (snd (next_gen (gen_drop k g)))) = Inl StopIteration"
      by (simp only: gen_drop_Suc_right)
    then show ?thesis
      using training_step_last_stop[OF use idx _ v(1), of igs] ver False by simp
  qed
  have run: "training_steps tsg igs m (batch_calls b i 0 (Suc k)) =
     (map Returned (gen_take k g) @ [Returned v], snd (training_step tsg igs ?m b i (int k)))"
    using training_steps_batch_last[where tsg = tsg and b = b and i = i and igs = igs,
      OF assms(1,2) len k] last by simp
  have eq: "map Returned (gen_take (Suc k) g) = map Returned (gen_take k g) @ [Returned v]"
    by (simp only: v(2)) simp
  show "fst (training_steps tsg igs m (batch_calls b i 0 (Suc k))) =
     map Returned (gen_take (Suc k) g)"
    by (simp only: run eq fst_conv)
  show "training_step_generator (snd (training_steps tsg igs m (batch_calls b i 0 (Suc k)))) = None"
    using last by (simp only: run snd_conv)
  show "verified_steps (snd (training_steps tsg igs m (batch_calls b i 0 (Suc k))))"
    using last by (simp only: run snd_conv)
qed

text \<open>The whole batch, when the generator has a value left after the last call's.\<close>

lemma training_steps_batch_too_many:
  assumes "training_step_generator m = None" and "tsg b i = Inr g"
    and "Suc k = num_optimizing_steps m"
    and "length (gen_take (Suc (Suc k)) g) = Suc (Suc k)"
    and "\<not> verified_steps m"
  shows "training_steps tsg igs m (batch_calls b i 0 (Suc k)) =
     (map Returned (gen_take k g) @
        [Raised (RuntimeError ''training_step_gen() yields too many times'')],
      (after_calls m g k)\<lparr>training_step_generator := Some (gen_drop (Suc (Suc k)) g)\<rparr>)"
proof -
  have len1: "length (gen_take (Suc k) g) = Suc k" using assms(4) by (rule gen_take_prefix)
  have len: "length (gen_take k g) = k" using len1 by (rule gen_take_prefix)
  from gen_take_snoc[OF len1] obtain v where
    v: "fst (next_gen (gen_drop k g)) = Inr v" by blast
  from gen_take_snoc[OF assms(4)] obtain v' where
    "fst (next_gen (gen_drop (Suc k) g)) = Inr v'" by blast
  then have v': "fst (next_gen (snd (next_gen (gen_drop k g)))) = Inr v'"
    by (simp only: gen_drop_Suc_right)
  have k: "k < num_optimizing_steps m" using assms(3) by simp
  let ?m = "after_calls m g k"
  have use: "generator_in_use tsg ?m b i = Inr (gen_drop k g)"
    using assms(1,2) by (simp add: generator_in_use_def after_calls_def)
  have idx: "int k = int (num_optimizing_steps ?m) - 1"
    using assms(3) by (simp add: after_calls_def)
  have ver: "\<not> verified_steps ?m" using assms(5) by (simp add: after_calls_def)
  have drop: "snd (next_gen (snd (next_gen (gen_drop k g)))) = gen_drop (Suc (Suc k)) g"
    by (simp only: gen_drop_Suc_right)
  show ?thesis
    using training_steps_batch_last[where tsg = tsg and b = b and i = i and igs = igs,
      OF assms(1,2) len k]
      training_step_last_too_many[OF use idx ver v v', of igs]
    by (simp only: drop fst_conv snd_conv)
qed

subsection \<open>What the methods leave alone\<close>

lemma summary_writer_fields:
  "registered_buffers (snd (summary_writer m)) = registered_buffers m"
  "next_stopping_epoch (snd (summary_writer m)) = next_stopping_epoch m"
  "cleanly_stopped (snd (summary_writer m)) = cleanly_stopped m"
  "reporter_attr (snd (summary_writer m)) = reporter_attr m"
  "verified_steps (snd (summary_writer m)) = verified_steps m"
  by (simp_all add: summary_writer_def load_local_def Let_def
      split: option.splits pl_logger.splits)

lemma training_epoch_end_fields:
  "registered_buffers (snd (training_epoch_end m outs)) = registered_buffers m"
  "next_stopping_epoch (snd (training_epoch_end m outs)) = next_stopping_epoch m"
  "cleanly_stopped (snd (training_epoch_end m outs)) = cleanly_stopped m"
  "reporter_attr m \<noteq> None \<Longrightarrow> reporter_attr (snd (training_epoch_end m outs)) \<noteq> None"
  "verified_steps (snd (training_epoch_end m outs)) = verified_steps m"
  by (auto simp add: training_epoch_end_def reporter_def Let_def
      split: option.splits sum.splits)

lemma increase_fields:
  "registered_buffers (snd (increase_next_stopping_epochs m n)) = registered_buffers m"
  "length (next_stopping_epoch (snd (increase_next_stopping_epochs m n))) =
     length (next_stopping_epoch m)"
  "length (cleanly_stopped (snd (increase_next_stopping_epochs m n))) =
     length (cleanly_stopped m)"
  "reporter_attr (snd (increase_next_stopping_epochs m n)) = reporter_attr m"
  "verified_steps (snd (increase_next_stopping_epochs m n)) = verified_steps m"
  by (auto simp add: increase_next_stopping_epochs_def iadd_def setitem0_def Let_def
      split: list.splits)

lemma on_pretrain_fields:
  assumes "snd (on_pretrain_routine_end cb tr (ReAgentLightningModule m)) =
     ReAgentLightningModule m'"
  shows "registered_buffers m' = registered_buffers m"
    "length (next_stopping_epoch m') = length (next_stopping_epoch m)"
    "length (cleanly_stopped m') = length (cleanly_stopped m)"
    "reporter_attr m' = reporter_attr m"
    "verified_steps m' = verified_steps m"
  using assms increase_fields[of m "num_epochs cb"]
  by (auto simp add: on_pretrain_routine_end_def
      split: sum.splits if_splits prod.splits outcome.splits)

lemma on_pretrain_keeps_class:
  "\<exists>m'. snd (on_pretrain_routine_end cb tr (ReAgentLightningModule m)) =
     ReAgentLightningModule m'"
  by (auto simp add: on_pretrain_routine_end_def
      split: sum.splits if_splits prod.splits outcome.splits)

lemma call_method_buffers_ok: "buffers_ok m \<Longrightarrow> buffers_ok (call_method tsg igs m c)"
proof (cases c)
  case (OnPretrainRoutineEnd cb tr)
  obtain m' where m':
    "snd (on_pretrain_routine_end cb tr (ReAgentLightningModule m)) = ReAgentLightningModule m'"
    using on_pretrain_keeps_class by blast
  assume "buffers_ok m"
  then show ?thesis using on_pretrain_fields[OF m'] OnPretrainRoutineEnd m'
    by (simp add: buffers_ok_def)
qed (simp_all add: buffers_ok_def training_step_fields summary_writer_fields
       training_epoch_end_fields increase_fields set_reporter_def soft_update_result_def Let_def)

lemma run_calls_buffers_ok: "buffers_ok m \<Longrightarrow> buffers_ok (run_calls tsg igs m cs)"
  unfolding run_calls_def
  by (induction cs arbitrary: m) (simp_all add: call_method_buffers_ok)

lemma call_method_reporter:
  "reporter_attr m \<noteq> None \<Longrightarrow> reporter_attr (call_method tsg igs m c) \<noteq> None"
proof (cases c)
  case (OnPretrainRoutineEnd cb tr)
  obtain m' where m':
    "snd (on_pretrain_routine_end cb tr (ReAgentLightningModule m)) = ReAgentLightningModule m'"
    using on_pretrain_keeps_class by blast
  assume "reporter_attr m \<noteq> None"
  then show ?thesis using on_pretrain_fields[OF m'] OnPretrainRoutineEnd m'
    by simp
qed (auto simp add: training_step_fields summary_writer_fields
       training_epoch_end_fields increase_fields set_reporter_def soft_update_result_def Let_def
     split: option.splits)

lemma run_calls_reporter:
  "reporter_attr m \<noteq> None \<Longrightarrow> reporter_attr (run_calls tsg igs m cs) \<noteq> None"
  unfolding run_calls_def
proof (induction cs arbitrary: m)
  case Nil
  then show ?case by simp
next
  case (Cons c cs)
  from Cons.prems have "reporter_attr (call_method tsg igs m c) \<noteq> None"
    by (rule call_method_reporter)
  then show ?case using Cons.IH by simp
qed

lemma call_method_verified:
  "verified_steps m \<Longrightarrow> verified_steps (call_method tsg igs m c)"
proof (cases c)
  case (OnPretrainRoutineEnd cb tr)
  obtain m' where m':
    "snd (on_pretrain_routine_end cb tr (ReAgentLightningModule m)) = ReAgentLightningModule m'"
    using on_pretrain_keeps_class by blast
  assume "verified_steps m"
  then show ?thesis using on_pretrain_fields[OF m'] OnPretrainRoutineEnd m'
    by simp
qed (simp_all add: training_step_fields summary_writer_fields
       training_epoch_end_fields increase_fields set_reporter_def soft_update_result_def Let_def)

lemma run_calls_verified:
  "verified_steps m \<Longrightarrow> verified_steps (run_calls tsg igs m cs)"
  unfolding run_calls_def
  by (induction cs arbitrary: m) (simp_all add: call_method_verified)

lemma init_buffers_ok: "registered_buffers base = [] \<Longrightarrow> buffers_ok (init base)"
  by (simp add: init_def register_buffer_def buffers_ok_def Let_def)

lemma sint_iadd: "sint ((e :: 32 word) + word_of_int n) = signed_take_bit 31 (sint e + n)"
proof -
  have "e + word_of_int n = word_of_int (sint e + n)" by simp
  then show ?thesis by (simp only: sint_sbintrunc') simp
qed

section \<open>The training step\<close>

text \<open>
  C1, as the code has it. For a batch whose first call finds no stored
  generator, the calls with the optimizer indices \<open>0, \<dots>, k\<close> (\<open>k\<close> below
  \<^verbatim>\<open>_num_optimizing_steps\<close>) return the first \<open>k + 1\<close> values yielded by the
  generator \<^verbatim>\<open>train_step_gen(batch, batch_idx)\<close>, in order, so the call with
  index \<open>k\<close> returns the \<open>(k+1)\<close>-th yielded value, and the stored generator is
  that same generator, advanced. This needs the generator to yield \<open>k + 1\<close>
  values, and on the last index it needs the steps to be verified already or
  the generator to stop right after that value.
\<close>

theorem training_steps_return_yielded_values:
  assumes "training_step_generator m = None" and "tsg b i = Inr g"
    and "k < num_optimizing_steps m"
    and "length (gen_take (Suc k) g) = Suc k"
    and "Suc k = num_optimizing_steps m \<Longrightarrow>
           verified_steps m \<or> fst (next_gen (gen_drop (Suc k) g)) = Inl StopIteration"
  shows "fst (training_steps tsg igs m (batch_calls b i 0 (Suc k))) =
           map Returned (gen_take (Suc k) g) \<and>
         last (fst (training_steps tsg igs m (batch_calls b i 0 (Suc k)))) =
           Returned (gen_take (Suc k) g ! k) \<and>
         training_step_generator (snd (training_steps tsg igs m (batch_calls b i 0 (Suc k)))) =
           (if Suc k = num_optimizing_steps m then None else Some (gen_drop (Suc k) g))"
proof -
  have A: "fst (training_steps tsg igs m (batch_calls b i 0 (Suc k))) =
             map Returned (gen_take (Suc k) g) \<and>
           training_step_generator (snd (training_steps tsg igs m (batch_calls b i 0 (Suc k)))) =
             (if Suc k = num_optimizing_steps m then None else Some (gen_drop (Suc k) g))"
  proof (cases "Suc k = num_optimizing_steps m")
    case False
    with assms(3) have "Suc k < num_optimizing_steps m" by simp
    from training_steps_batch_prefix[where tsg = tsg and b = b and i = i and igs = igs,
        OF assms(1,2,4) this] False
    show ?thesis by (simp add: after_calls_def)
  next
    case True
    from assms(5)[OF True]
    have stop: "verified_steps m \<or> fst (next_gen (gen_drop (Suc k) g)) = Inl StopIteration" .
    from training_steps_batch_complete(1,2)[where tsg = tsg and b = b and i = i and igs = igs,
        OF assms(1,2) True assms(4) stop] True
    show ?thesis by simp
  qed
  have "last (map Returned (gen_take (Suc k) g)) = Returned (gen_take (Suc k) g ! k)"
    using assms(4) by (rule last_map_nth)
  with A show ?thesis by simp
qed

theorem training_steps_return_yielded_values_witness:
  "training_step_generator (fresh_module 2) = None \<and>
   (1 :: nat) < num_optimizing_steps (fresh_module 2) \<and>
   fst (training_steps (yielding [10, 20]) Suc (fresh_module 2) (batch_calls () 7 0 (Suc 1))) =
     [Returned 10, Returned 20]"
proof -
  have h1: "training_step_generator (fresh_module 2) = None"
    by (simp add: fresh_module_def init_def register_buffer_def fresh_base_def)
  have h2: "yielding [10, 20] () 7 = Inr (yields [10, 20 :: int])"
    by (simp add: yielding_def)
  have h3: "(1 :: nat) < num_optimizing_steps (fresh_module 2)"
    by (simp add: fresh_module_def)
  have vals: "gen_take (Suc 1) (yields [10, 20 :: int]) = [10, 20]"
    by (simp add: next_gen_def)
  have h4: "length (gen_take (Suc 1) (yields [10, 20 :: int])) = Suc 1"
    by (simp only: vals) simp
  have "fst (next_gen (gen_drop (Suc 1) (yields [10, 20 :: int]))) = Inl StopIteration"
    by (simp add: next_gen_def)
  then have h5: "Suc 1 = num_optimizing_steps (fresh_module 2) \<Longrightarrow>
      verified_steps (fresh_module 2) \<or>
      fst (next_gen (gen_drop (Suc 1) (yields [10, 20 :: int]))) = Inl StopIteration"
    by (rule disjI2)
  from training_steps_return_yielded_values[where tsg = "yielding [10, 20]" and b = "()"
      and i = 7 and igs = Suc, OF h1 h2 h3 h4 h5]
  have "fst (training_steps (yielding [10, 20]) Suc (fresh_module 2) (batch_calls () 7 0 (Suc 1))) =
     map Returned (gen_take (Suc 1) (yields [10, 20]))"
    by (rule conjunct1)
  then have "fst (training_steps (yielding [10, 20]) Suc (fresh_module 2)
       (batch_calls () 7 0 (Suc 1))) = [Returned 10, Returned 20]"
    by (simp only: vals list.map)
  with h1 h3 show ?thesis by (simp only: simp_thms)
qed

text \<open>
  C1 as stated fails: with two optimizers, unverified steps and a generator
  that yields three values, the call with optimizer index 1 raises
  RuntimeError and does not return the second yielded value.
\<close>

theorem training_step_last_call_raises_counterexample:
  "gen_take 2 (yields [10, 20, 30 :: int]) = [10, 20] \<and>
   fst (training_steps (yielding [10, 20, 30]) Suc (fresh_module 2) (batch_calls () 7 0 2)) =
     [Returned 10, Raised (RuntimeError ''training_step_gen() yields too many times'')]"
proof -
  have two: "(2 :: nat) = Suc (Suc 0)" by simp
  show ?thesis
    unfolding two
    by (simp add: training_step_def yielding_def next_gen_def fresh_module_def init_def
        register_buffer_def fresh_base_def)
qed

text \<open>
  C2. A batch starts with no stored generator and its calls come in the order
  of the optimizer indices; the call with the last index \<open>k\<close> is the one with
  \<open>optimizer_idx = _num_optimizing_steps - 1\<close>. If the steps are not verified
  and the generator yields more values than there are optimizers, that call
  raises \<^verbatim>\<open>RuntimeError("training_step_gen() yields too many times")\<close>. If the
  extra advance raises StopIteration, the call returns its value and
  \<open>verified_steps\<close> is True afterwards. Once \<open>verified_steps\<close> is True the
  batch returns all its values whatever the generator would do next, and no
  later call of any method makes it False again.
\<close>

theorem training_step_checks_number_of_yields:
  assumes "training_step_generator m = None" and "tsg b i = Inr g"
    and "Suc k = num_optimizing_steps m"
    and "length (gen_take (Suc k) g) = Suc k"
  shows "(\<not> verified_steps m \<and> length (gen_take (Suc (Suc k)) g) = Suc (Suc k) \<longrightarrow>
            fst (training_steps tsg igs m (batch_calls b i 0 (Suc k))) =
              map Returned (gen_take k g) @
                [Raised (RuntimeError ''training_step_gen() yields too many times'')]) \<and>
         (\<not> verified_steps m \<and> fst (next_gen (gen_drop (Suc k) g)) = Inl StopIteration \<longrightarrow>
            fst (training_steps tsg igs m (batch_calls b i 0 (Suc k))) =
              map Returned (gen_take (Suc k) g) \<and>
            verified_steps (snd (training_steps tsg igs m (batch_calls b i 0 (Suc k))))) \<and>
         (verified_steps m \<longrightarrow>
            fst (training_steps tsg igs m (batch_calls b i 0 (Suc k))) =
              map Returned (gen_take (Suc k) g) \<and>
            verified_steps (snd (training_steps tsg igs m (batch_calls b i 0 (Suc k)))) \<and>
            verified_steps (run_calls tsg' igs' m cs))"
proof (intro conjI impI)
  assume a: "\<not> verified_steps m \<and> length (gen_take (Suc (Suc k)) g) = Suc (Suc k)"
  from a have nv: "\<not> verified_steps m" and len: "length (gen_take (Suc (Suc k)) g) = Suc (Suc k)"
    by simp_all
  show "fst (training_steps tsg igs m (batch_calls b i 0 (Suc k))) =
      map Returned (gen_take k g) @
        [Raised (RuntimeError ''training_step_gen() yields too many times'')]"
    by (simp only: training_steps_batch_too_many[where tsg = tsg and b = b and i = i
          and igs = igs, OF assms(1,2,3) len nv] fst_conv)
next
  assume a: "\<not> verified_steps m \<and> fst (next_gen (gen_drop (Suc k) g)) = Inl StopIteration"
  then have stop: "verified_steps m \<or> fst (next_gen (gen_drop (Suc k) g)) = Inl StopIteration"
    by simp
  show "fst (training_steps tsg igs m (batch_calls b i 0 (Suc k))) =
      map Returned (gen_take (Suc k) g)"
    by (rule training_steps_batch_complete(1)[where tsg = tsg and b = b and i = i,
          OF assms(1,2,3,4) stop])
next
  assume a: "\<not> verified_steps m \<and> fst (next_gen (gen_drop (Suc k) g)) = Inl StopIteration"
  then have stop: "verified_steps m \<or> fst (next_gen (gen_drop (Suc k) g)) = Inl StopIteration"
    by simp
  show "verified_steps (snd (training_steps tsg igs m (batch_calls b i 0 (Suc k))))"
    by (rule training_steps_batch_complete(3)[where tsg = tsg and b = b and i = i,
          OF assms(1,2,3,4) stop])
next
  assume v: "verified_steps m"
  then have stop: "verified_steps m \<or> fst (next_gen (gen_drop (Suc k) g)) = Inl StopIteration"
    by simp
  show "fst (training_steps tsg igs m (batch_calls b i 0 (Suc k))) =
      map Returned (gen_take (Suc k) g)"
    by (rule training_steps_batch_complete(1)[where tsg = tsg and b = b and i = i,
          OF assms(1,2,3,4) stop])
next
  assume v: "verified_steps m"
  then have stop: "verified_steps m \<or> fst (next_gen (gen_drop (Suc k) g)) = Inl StopIteration"
    by simp
  show "verified_steps (snd (training_steps tsg igs m (batch_calls b i 0 (Suc k))))"
    by (rule training_steps_batch_complete(3)[where tsg = tsg and b = b and i = i,
          OF assms(1,2,3,4) stop])
next
  assume v: "verified_steps m"
  then show "verified_steps (run_calls tsg' igs' m cs)" by (rule run_calls_verified)
qed

theorem training_step_checks_number_of_yields_witness:
  "\<not> verified_steps (fresh_module 2) \<and>
   length (gen_take (Suc (Suc 1)) (yields [10, 20, 30 :: int])) = Suc (Suc 1) \<and>
   fst (training_steps (yielding [10, 20, 30]) Suc (fresh_module 2) (batch_calls () 7 0 (Suc 1))) =
     [Returned 10, Raised (RuntimeError ''training_step_gen() yields too many times'')] \<and>
   fst (next_gen (gen_drop (Suc 1) (yields [10, 20 :: int]))) = Inl StopIteration \<and>
   verified_steps
     (snd (training_steps (yielding [10, 20]) Suc (fresh_module 2) (batch_calls () 7 0 (Suc 1))))"
proof -
  have h1: "training_step_generator (fresh_module 2) = None"
    by (simp add: fresh_module_def init_def register_buffer_def fresh_base_def)
  have h3: "Suc 1 = num_optimizing_steps (fresh_module 2)"
    by (simp add: fresh_module_def)
  have nv: "\<not> verified_steps (fresh_module 2)"
    by (simp add: fresh_module_def init_def register_buffer_def fresh_base_def)
  have a2: "yielding [10, 20, 30] () 7 = Inr (yields [10, 20, 30 :: int])"
    by (simp add: yielding_def)
  have a4: "length (gen_take (Suc 1) (yields [10, 20, 30 :: int])) = Suc 1"
    by (simp add: next_gen_def)
  have a5: "length (gen_take (Suc (Suc 1)) (yields [10, 20, 30 :: int])) = Suc (Suc 1)"
    by (simp add: next_gen_def)
  have a6: "gen_take 1 (yields [10, 20, 30 :: int]) = [10]"
    by (simp add: next_gen_def)
  have b2: "yielding [10, 20] () 7 = Inr (yields [10, 20 :: int])"
    by (simp add: yielding_def)
  have b4: "length (gen_take (Suc 1) (yields [10, 20 :: int])) = Suc 1"
    by (simp add: next_gen_def)
  have b5: "fst (next_gen (gen_drop (Suc 1) (yields [10, 20 :: int]))) = Inl StopIteration"
    by (simp add: next_gen_def)
  from training_step_checks_number_of_yields[where tsg = "yielding [10, 20, 30]" and b = "()"
      and i = 7 and igs = Suc, OF h1 a2 h3 a4] nv a5
  have A: "fst (training_steps (yielding [10, 20, 30]) Suc (fresh_module 2)
      (batch_calls () 7 0 (Suc 1))) =
      map Returned (gen_take 1 (yields [10, 20, 30])) @
        [Raised (RuntimeError ''training_step_gen() yields too many times'')]"
    by blast
  from training_step_checks_number_of_yields[where tsg = "yielding [10, 20]" and b = "()"
      and i = 7 and igs = Suc, OF h1 b2 h3 b4] nv b5
  have B: "verified_steps
     (snd (training_steps (yielding [10, 20]) Suc (fresh_module 2) (batch_calls () 7 0 (Suc 1))))"
    by blast
  have A': "fst (training_steps (yielding [10, 20, 30]) Suc (fresh_module 2)
      (batch_calls () 7 0 (Suc 1))) =
      [Returned 10, Raised (RuntimeError ''training_step_gen() yields too many times'')]"
    using A by (simp only: a6) simp
  from nv a5 A' b5 B show ?thesis by (intro conjI)
qed

text \<open>
  C3, as the code has it. A call with the last optimizer index that returns
  leaves no stored generator, so the next call draws from a fresh
  \<^verbatim>\<open>train_step_gen(batch, batch_idx)\<close>. A call with any other optimizer index
  that has a generator to draw from (one is stored, or \<^verbatim>\<open>train_step_gen\<close>
  returns one) leaves that generator stored, advanced by the call's one
  \<^verbatim>\<open>next\<close>, so the attribute is not None. A call that has none (nothing is
  stored and \<^verbatim>\<open>train_step_gen\<close> raises) raises the same exception and leaves
  the attribute None.
\<close>

theorem training_step_generator_after_call:
  "(k = int (num_optimizing_steps m) - 1 \<and> fst (training_step tsg igs m b i k) = Returned v \<longrightarrow>
      training_step_generator (snd (training_step tsg igs m b i k)) = None \<and>
      generator_in_use tsg (snd (training_step tsg igs m b i k)) b' i' = tsg b' i') \<and>
   (k \<noteq> int (num_optimizing_steps m) - 1 \<and> generator_in_use tsg m b i = Inr g \<longrightarrow>
      training_step_generator (snd (training_step tsg igs m b i k)) = Some (snd (next_gen g)) \<and>
      training_step_generator (snd (training_step tsg igs m b i k)) \<noteq> None) \<and>
   (generator_in_use tsg m b i = Inl e \<longrightarrow>
      training_step_generator m = None \<and>
      training_step tsg igs m b i k = (Raised e, m) \<and>
      training_step_generator (snd (training_step tsg igs m b i k)) = None)"
proof (intro conjI impI)
  assume a: "k = int (num_optimizing_steps m) - 1 \<and> fst (training_step tsg igs m b i k) = Returned v"
  from a have r: "fst (training_step tsg igs m b i k) = Returned v" by (rule conjunct2)
  from a have idx: "k = int (num_optimizing_steps m) - 1" by (rule conjunct1)
  have none: "training_step_generator (snd (training_step tsg igs m b i k)) = None"
    using r idx by (rule training_step_returned_last)
  show "training_step_generator (snd (training_step tsg igs m b i k)) = None" by (rule none)
  show "generator_in_use tsg (snd (training_step tsg igs m b i k)) b' i' = tsg b' i'"
    using none by (simp add: generator_in_use_def)
next
  assume a: "k \<noteq> int (num_optimizing_steps m) - 1 \<and> generator_in_use tsg m b i = Inr g"
  from a have idx: "k \<noteq> int (num_optimizing_steps m) - 1" by (rule conjunct1)
  from a have use: "generator_in_use tsg m b i = Inr g" by (rule conjunct2)
  show "training_step_generator (snd (training_step tsg igs m b i k)) = Some (snd (next_gen g))"
    by (simp add: training_step_other_index[OF use idx])
  then show "training_step_generator (snd (training_step tsg igs m b i k)) \<noteq> None"
    by simp
next
  assume a: "generator_in_use tsg m b i = Inl e"
  then show none: "training_step_generator m = None"
    by (simp add: generator_in_use_def split: option.splits)
  from a none show run: "training_step tsg igs m b i k = (Raised e, m)"
    by (simp add: training_step_def generator_in_use_def)
  from none show "training_step_generator (snd (training_step tsg igs m b i k)) = None"
    by (simp only: run snd_conv)
qed

theorem training_step_generator_after_call_witness:
  "(1 :: int) = int (num_optimizing_steps (fresh_module 2)) - 1 \<and>
   (0 :: int) \<noteq> int (num_optimizing_steps (fresh_module 2)) - 1 \<and>
   generator_in_use (yielding [10, 20]) (fresh_module 2) () 7 = Inr (yields [10, 20]) \<and>
   training_step_generator (snd (training_step (yielding [10, 20]) Suc (fresh_module 2) () 7 0)) =
     Some (yields [20]) \<and>
   fst (training_step (yielding [10, 20]) Suc
         (snd (training_step (yielding [10, 20]) Suc (fresh_module 2) () 7 0)) () 7 1) =
     Returned 20 \<and>
   training_step_generator
     (snd (training_step (yielding [10, 20]) Suc
         (snd (training_step (yielding [10, 20]) Suc (fresh_module 2) () 7 0)) () 7 1)) = None \<and>
   generator_in_use train_step_gen (fresh_module 2) () 7 = Inl NotImplementedError \<and>
   training_step train_step_gen Suc (fresh_module 2) () 7 0 =
     (Raised NotImplementedError, fresh_module 2)"
proof -
  let ?m1 = "snd (training_step (yielding [10, 20]) Suc (fresh_module 2) () 7 0)"
  have n: "num_optimizing_steps (fresh_module 2) = 2"
    by (simp add: fresh_module_def)
  have n1: "num_optimizing_steps ?m1 = 2"
    by (simp add: training_step_def yielding_def next_gen_def fresh_module_def init_def
        register_buffer_def fresh_base_def)
  have i1: "(1 :: int) = int (num_optimizing_steps (fresh_module 2)) - 1" by (simp add: n)
  have i1': "(1 :: int) = int (num_optimizing_steps ?m1) - 1" by (simp add: n1)
  have i0: "(0 :: int) \<noteq> int (num_optimizing_steps (fresh_module 2)) - 1" by (simp add: n)
  have use: "generator_in_use (yielding [10, 20]) (fresh_module 2) () 7 = Inr (yields [10, 20 :: int])"
    by (simp add: generator_in_use_def yielding_def fresh_module_def init_def
        register_buffer_def fresh_base_def)
  have nxt: "snd (next_gen (yields [10, 20 :: int])) = yields [20]"
    by (simp add: next_gen_def)
  have ret: "fst (training_step (yielding [10, 20]) Suc ?m1 () 7 1) = Returned 20"
    by (simp add: training_step_def yielding_def next_gen_def fresh_module_def init_def
        register_buffer_def fresh_base_def)
  have base: "generator_in_use (train_step_gen :: unit \<Rightarrow> int \<Rightarrow> exc + int gen)
      (fresh_module 2) () 7 = Inl NotImplementedError"
    by (simp add: generator_in_use_def train_step_gen_def fresh_module_def init_def
        register_buffer_def fresh_base_def)
  from training_step_generator_after_call[where k = 0 and m = "fresh_module 2"
      and tsg = "yielding [10, 20]" and b = "()" and i = 7 and g = "yields [10, 20]"
      and igs = Suc] i0 use
  have A: "training_step_generator ?m1 = Some (yields [20])"
    by (simp only: nxt) blast
  from training_step_generator_after_call[where k = 1 and m = ?m1
      and tsg = "yielding [10, 20]" and b = "()" and i = 7 and v = 20 and igs = Suc] i1' ret
  have B: "training_step_generator
     (snd (training_step (yielding [10, 20]) Suc ?m1 () 7 1)) = None"
    by blast
  from training_step_generator_after_call[where k = 0 and m = "fresh_module 2"
      and tsg = train_step_gen and b = "()" and i = 7 and e = NotImplementedError
      and igs = Suc] base
  have C: "training_step train_step_gen Suc (fresh_module 2) () 7 0 =
     (Raised NotImplementedError, fresh_module 2)"
    by blast
  from i1 i0 use A ret B base C show ?thesis by (intro conjI)
qed

text \<open>
  C3 as stated fails on both halves. With one optimizer and unverified steps,
  the call with the last optimizer index 0 on a generator that yields twice
  raises RuntimeError and leaves the exhausted generator stored. With two
  optimizers, the first call of a batch (optimizer index 0, not the last)
  changes the attribute from None to the generator it creates; and with the
  \<^verbatim>\<open>train_step_gen\<close> of the base class the same call raises
  NotImplementedError and leaves the attribute None.
\<close>

theorem training_step_generator_kept_counterexample:
  "(0 :: int) = int (num_optimizing_steps (fresh_module 1)) - 1 \<and>
   training_step (yielding [10, 20]) Suc (fresh_module 1) () 7 0 =
     (Raised (RuntimeError ''training_step_gen() yields too many times''),
      (fresh_module 1)\<lparr>training_step_generator := Some Return\<rparr>) \<and>
   training_step_generator
     (snd (training_step (yielding [10, 20]) Suc (fresh_module 1) () 7 0)) \<noteq> None \<and>
   (0 :: int) < int (num_optimizing_steps (fresh_module 2)) - 1 \<and>
   training_step_generator (fresh_module 2) = None \<and>
   training_step_generator
     (snd (training_step (yielding [10, 20]) Suc (fresh_module 2) () 7 0)) \<noteq>
   training_step_generator (fresh_module 2) \<and>
   training_step train_step_gen Suc (fresh_module 2) () 7 0 =
     (Raised NotImplementedError, fresh_module 2) \<and>
   training_step_generator (snd (training_step train_step_gen Suc (fresh_module 2) () 7 0)) = None"
  by (simp add: training_step_def yielding_def train_step_gen_def next_gen_def fresh_module_def
      init_def register_buffer_def fresh_base_def)

section \<open>Stopping epochs\<close>

text \<open>
  C4, as the code has it. On a module whose two buffers hold one element each,
  \<^verbatim>\<open>increase_next_stopping_epochs(num_epochs)\<close>, for every integer
  \<open>num_epochs\<close> of the int64 range, adds \<open>num_epochs\<close> to the counter in the
  \<^verbatim>\<open>int32\<close> arithmetic of the tensor (the new value is the sum taken modulo
  \<open>2 ^ 32\<close> into the signed range, and is the integer sum whenever that lies in
  the range), sets the flag to False, returns self, and changes no other
  attribute.
\<close>

theorem increase_next_stopping_epochs_adds:
  assumes "next_stopping_epoch m = [e]" and "cleanly_stopped m = [c]"
    and "fits_int64 n"
  shows "fst (increase_next_stopping_epochs m n) =
           Returned (snd (increase_next_stopping_epochs m n)) \<and>
         next_stopping_epoch (snd (increase_next_stopping_epochs m n)) = [e + word_of_int n] \<and>
         sint (e + word_of_int n) = signed_take_bit 31 (sint e + n) \<and>
         (- (2 ^ 31) \<le> sint e + n \<and> sint e + n < 2 ^ 31 \<longrightarrow>
            sint (e + word_of_int n) = sint e + n) \<and>
         cleanly_stopped (snd (increase_next_stopping_epochs m n)) = [False] \<and>
         (snd (increase_next_stopping_epochs m n))
           \<lparr>next_stopping_epoch := next_stopping_epoch m,
            cleanly_stopped := cleanly_stopped m\<rparr> = m"
  using assms
  by (simp add: increase_next_stopping_epochs_def iadd_def setitem0_def Let_def sint_iadd
      signed_take_bit_int_eq_self)

theorem increase_next_stopping_epochs_adds_witness:
  "next_stopping_epoch (fresh_module 2) = [- 1] \<and>
   cleanly_stopped (fresh_module 2) = [True] \<and>
   fits_int64 5 \<and>
   map sint (next_stopping_epoch (snd (increase_next_stopping_epochs (fresh_module 2) 5))) = [4] \<and>
   cleanly_stopped (snd (increase_next_stopping_epochs (fresh_module 2) 5)) = [False]"
proof -
  have h1: "next_stopping_epoch (fresh_module 2) = [- 1]"
    by (simp add: fresh_module_def init_def register_buffer_def fresh_base_def)
  have h2: "cleanly_stopped (fresh_module 2) = [True]"
    by (simp add: fresh_module_def init_def register_buffer_def fresh_base_def)
  have h3: "fits_int64 5" by (simp add: fits_int64_def)
  from increase_next_stopping_epochs_adds[OF h1 h2 h3] h1 h2 h3
  show ?thesis by simp
qed

text \<open>
  C4 as stated fails. With \<open>num_epochs = 2 ^ 63\<close> the call raises RuntimeError
  and leaves the counter at -1 and the flag True; with \<open>num_epochs = 2 ^ 32\<close>
  the call returns and the counter is still -1.
\<close>

theorem increase_next_stopping_epochs_overflow_counterexample:
  "increase_next_stopping_epochs (fresh_module 2) (2 ^ 63) =
     (Raised (RuntimeError ''Overflow when unpacking long''), fresh_module 2) \<and>
   cleanly_stopped (fresh_module 2) = [True] \<and>
   map sint (next_stopping_epoch (fresh_module 2)) = [- 1] \<and>
   map sint (next_stopping_epoch (snd (increase_next_stopping_epochs (fresh_module 2) (2 ^ 32)))) =
     [- 1]"
  by (simp add: increase_next_stopping_epochs_def iadd_def fits_int64_def setitem0_def Let_def
      fresh_module_def init_def register_buffer_def fresh_base_def)

text \<open>
  C5. \<^verbatim>\<open>training_epoch_end\<close> never changes the counter or the flag. On a module
  with a reporter, a one-element counter and a trainer, it flushes the
  reporter with the current epoch, sets \<^verbatim>\<open>trainer.should_stop\<close> to True when
  the current epoch equals the counter, and leaves the trainer as it is when
  it does not.
\<close>

theorem training_epoch_end_stops_at_epoch:
  "next_stopping_epoch (snd (training_epoch_end m outs)) = next_stopping_epoch m \<and>
   cleanly_stopped (snd (training_epoch_end m outs)) = cleanly_stopped m \<and>
   (reporter_attr m = Some r \<and> next_stopping_epoch m = [e] \<and> trainer m = Some t \<longrightarrow>
      fst (training_epoch_end m outs) = Returned (TrainResult None) \<and>
      reporter_attr (snd (training_epoch_end m outs)) = Some (flush r (current_epoch m)) \<and>
      (current_epoch m = sint e \<longrightarrow>
         trainer (snd (training_epoch_end m outs)) = Some (t\<lparr>should_stop := True\<rparr>)) \<and>
      (current_epoch m \<noteq> sint e \<longrightarrow>
         trainer (snd (training_epoch_end m outs)) = Some t))"
  by (simp add: training_epoch_end_fields)
     (simp add: training_epoch_end_def reporter_def item_def Let_def)

theorem training_epoch_end_stops_at_epoch_witness:
  "reporter_attr (attached_module 7) = Some (Reporter []) \<and>
   next_stopping_epoch (attached_module 7) = [- 1] \<and>
   trainer (attached_module 7) = Some \<lparr>should_stop = False\<rparr> \<and>
   current_epoch (attached_module 7) \<noteq> sint (- 1 :: 32 word) \<and>
   reporter_attr (snd (training_epoch_end (attached_module 7) ())) = Some (Reporter [7]) \<and>
   trainer (snd (training_epoch_end (attached_module 7) ())) = Some \<lparr>should_stop = False\<rparr> \<and>
   current_epoch (attached_module (- 1)) = sint (- 1 :: 32 word) \<and>
   trainer (snd (training_epoch_end (attached_module (- 1)) ())) = Some \<lparr>should_stop = True\<rparr>"
proof -
  have h: "reporter_attr (attached_module x) = Some (Reporter [])"
    "next_stopping_epoch (attached_module x) = [- 1]"
    "trainer (attached_module x) = Some \<lparr>should_stop = False\<rparr>"
    "current_epoch (attached_module x) = x" for x
    by (simp_all add: attached_module_def fresh_module_def init_def register_buffer_def
        fresh_base_def)
  from training_epoch_end_stops_at_epoch[of "attached_module 7" "()" "Reporter []" "- 1"
      "\<lparr>should_stop = False\<rparr>"] h[of 7]
  have A: "reporter_attr (snd (training_epoch_end (attached_module 7) ())) = Some (Reporter [7]) \<and>
     trainer (snd (training_epoch_end (attached_module 7) ())) = Some \<lparr>should_stop = False\<rparr>"
    by simp
  from training_epoch_end_stops_at_epoch[of "attached_module (- 1)" "()" "Reporter []" "- 1"
      "\<lparr>should_stop = False\<rparr>"] h[of "- 1"]
  have B: "trainer (snd (training_epoch_end (attached_module (- 1)) ())) =
     Some \<lparr>should_stop = True\<rparr>"
    by simp
  from A B h[of 7] h[of "- 1"] show ?thesis by simp
qed

text \<open>
  C6, as the code has it. On a module whose two buffers hold one element each:
  when the flag is True at entry and the callback's \<open>num_epochs\<close> is of the
  int64 range, \<^verbatim>\<open>on_pretrain_routine_end\<close> returns, the counter has grown by
  \<open>num_epochs\<close> in the \<^verbatim>\<open>int32\<close> arithmetic of the tensor (the sum modulo
  \<open>2 ^ 32\<close> in the signed range, the integer sum whenever that lies in the
  range) and the flag is False; when the flag is True and \<open>num_epochs\<close> is
  outside the int64 range, the call raises and leaves the module as it was;
  when the flag is False the call returns and leaves the module as it was.
\<close>

theorem on_pretrain_routine_end_increases_iff_cleanly_stopped:
  assumes "next_stopping_epoch m = [e]" and "cleanly_stopped m = [c]"
  shows "(c \<and> fits_int64 (num_epochs cb) \<longrightarrow>
            on_pretrain_routine_end cb tr (ReAgentLightningModule m) =
              (Returned (),
               ReAgentLightningModule
                 (m\<lparr>next_stopping_epoch := [e + word_of_int (num_epochs cb)],
                    cleanly_stopped := [False]\<rparr>)) \<and>
            sint (e + word_of_int (num_epochs cb)) =
              signed_take_bit 31 (sint e + num_epochs cb) \<and>
            (- (2 ^ 31) \<le> sint e + num_epochs cb \<and> sint e + num_epochs cb < 2 ^ 31 \<longrightarrow>
               sint (e + word_of_int (num_epochs cb)) = sint e + num_epochs cb)) \<and>
         (c \<and> \<not> fits_int64 (num_epochs cb) \<longrightarrow>
            on_pretrain_routine_end cb tr (ReAgentLightningModule m) =
              (Raised (RuntimeError ''Overflow when unpacking long''),
               ReAgentLightningModule m)) \<and>
         (\<not> c \<longrightarrow>
            on_pretrain_routine_end cb tr (ReAgentLightningModule m) =
              (Returned (), ReAgentLightningModule m))"
  using assms
  by (simp add: on_pretrain_routine_end_def item_def increase_next_stopping_epochs_def
      iadd_def setitem0_def Let_def sint_iadd signed_take_bit_int_eq_self)

theorem on_pretrain_routine_end_increases_iff_cleanly_stopped_witness:
  "next_stopping_epoch (fresh_module 2) = [- 1] \<and>
   cleanly_stopped (fresh_module 2) = [True] \<and>
   fits_int64 (num_epochs (callback_init 10)) \<and>
   on_pretrain_routine_end (callback_init 10) \<lparr>should_stop = False\<rparr>
       (ReAgentLightningModule (fresh_module 2)) =
     (Returned (),
      ReAgentLightningModule
        ((fresh_module 2)\<lparr>next_stopping_epoch := [9], cleanly_stopped := [False]\<rparr>)) \<and>
   on_pretrain_routine_end (callback_init 10) \<lparr>should_stop = False\<rparr>
       (ReAgentLightningModule
          ((fresh_module 2)\<lparr>next_stopping_epoch := [9], cleanly_stopped := [False]\<rparr>)) =
     (Returned (),
      ReAgentLightningModule
        ((fresh_module 2)\<lparr>next_stopping_epoch := [9], cleanly_stopped := [False]\<rparr>))"
proof -
  have h1: "next_stopping_epoch (fresh_module 2) = [- 1]"
    by (simp add: fresh_module_def init_def register_buffer_def fresh_base_def)
  have h2: "cleanly_stopped (fresh_module 2) = [True]"
    by (simp add: fresh_module_def init_def register_buffer_def fresh_base_def)
  have h3: "fits_int64 (num_epochs (callback_init 10))"
    by (simp add: fits_int64_def callback_init_def)
  let ?m = "(fresh_module 2)\<lparr>next_stopping_epoch := [9], cleanly_stopped := [False]\<rparr>"
  have g1: "next_stopping_epoch ?m = [9]" by simp
  have g2: "cleanly_stopped ?m = [False]" by simp
  from on_pretrain_routine_end_increases_iff_cleanly_stopped[OF h1 h2,
      of "callback_init 10" "\<lparr>should_stop = False\<rparr>"]
    on_pretrain_routine_end_increases_iff_cleanly_stopped[OF g1 g2,
      of "callback_init 10" "\<lparr>should_stop = False\<rparr>"]
    h1 h2 h3
  show ?thesis by (simp add: callback_init_def)
qed

text \<open>
  C6 as stated fails. With the flag True at entry, a callback with
  \<open>num_epochs = 2 ^ 63\<close> raises RuntimeError and leaves counter and flag as
  they were, and a callback with \<open>num_epochs = 2 ^ 32\<close> returns with the
  counter still at -1.
\<close>

theorem on_pretrain_routine_end_overflow_counterexample:
  "cleanly_stopped (fresh_module 2) = [True] \<and>
   map sint (next_stopping_epoch (fresh_module 2)) = [- 1] \<and>
   on_pretrain_routine_end (callback_init (2 ^ 63)) \<lparr>should_stop = False\<rparr>
       (ReAgentLightningModule (fresh_module 2)) =
     (Raised (RuntimeError ''Overflow when unpacking long''),
      ReAgentLightningModule (fresh_module 2)) \<and>
   on_pretrain_routine_end (callback_init (2 ^ 32)) \<lparr>should_stop = False\<rparr>
       (ReAgentLightningModule (fresh_module 2)) =
     (Returned (),
      ReAgentLightningModule
        ((fresh_module 2)\<lparr>next_stopping_epoch := [- 1], cleanly_stopped := [False]\<rparr>))"
  by (simp add: on_pretrain_routine_end_def item_def increase_next_stopping_epochs_def
      iadd_def fits_int64_def setitem0_def Let_def callback_init_def fresh_module_def init_def
      register_buffer_def fresh_base_def)

text \<open>
  C9. A second \<^verbatim>\<open>on_pretrain_routine_end\<close> right after the first leaves the
  module exactly as the first left it, and ends as the first did.
\<close>

theorem on_pretrain_routine_end_idempotent:
  "on_pretrain_routine_end cb tr (snd (on_pretrain_routine_end cb tr pm)) =
     on_pretrain_routine_end cb tr pm"
proof (cases pm)
  case OtherLightningModule
  then show ?thesis by (simp add: on_pretrain_routine_end_def)
next
  case (ReAgentLightningModule m)
  show ?thesis
  proof (cases "cleanly_stopped m")
    case Nil
    with ReAgentLightningModule show ?thesis
      by (simp add: on_pretrain_routine_end_def item_def)
  next
    case (Cons c cs)
    with ReAgentLightningModule show ?thesis
      by (cases cs)
         (simp_all add: on_pretrain_routine_end_def item_def increase_next_stopping_epochs_def
            iadd_def setitem0_def Let_def)
  qed
qed

theorem on_pretrain_routine_end_idempotent_witness:
  "on_pretrain_routine_end (callback_init 10) \<lparr>should_stop = False\<rparr>
     (snd (on_pretrain_routine_end (callback_init 10) \<lparr>should_stop = False\<rparr>
        (ReAgentLightningModule (fresh_module 2)))) =
   (Returned (),
    ReAgentLightningModule
      ((fresh_module 2)\<lparr>next_stopping_epoch := [9], cleanly_stopped := [False]\<rparr>))"
proof -
  have "on_pretrain_routine_end (callback_init 10) \<lparr>should_stop = False\<rparr>
      (ReAgentLightningModule (fresh_module 2)) =
    (Returned (),
     ReAgentLightningModule
       ((fresh_module 2)\<lparr>next_stopping_epoch := [9], cleanly_stopped := [False]\<rparr>))"
    by (simp add: on_pretrain_routine_end_def item_def increase_next_stopping_epochs_def
        iadd_def fits_int64_def setitem0_def Let_def callback_init_def fresh_module_def
        init_def register_buffer_def fresh_base_def)
  with on_pretrain_routine_end_idempotent[of "callback_init 10" "\<lparr>should_stop = False\<rparr>"
      "ReAgentLightningModule (fresh_module 2)"]
  show ?thesis by simp
qed

section \<open>The module's attributes\<close>

text \<open>
  C7. When the superclass constructor leaves no buffer, \<^verbatim>\<open>__init__\<close> registers
  exactly the two buffers \<^verbatim>\<open>_next_stopping_epoch\<close> and \<^verbatim>\<open>_cleanly_stopped\<close>, the
  first a one-element int tensor holding -1 and the second a one-element bool
  tensor holding True; after any sequence of method calls the same two
  buffers are registered and each still holds exactly one element.
\<close>

theorem buffers_stay_single_element:
  assumes "registered_buffers base = []"
  shows "registered_buffers (init base) = [''_next_stopping_epoch'', ''_cleanly_stopped''] \<and>
         map sint (next_stopping_epoch (init base)) = [- 1] \<and>
         cleanly_stopped (init base) = [True] \<and>
         buffers_ok (run_calls tsg igs (init base) cs)"
proof -
  have "buffers_ok (run_calls tsg igs (init base) cs)"
    using assms by (intro run_calls_buffers_ok init_buffers_ok)
  then show ?thesis
    using assms by (simp add: init_def register_buffer_def Let_def)
qed

theorem buffers_stay_single_element_witness:
  "registered_buffers fresh_base = [] \<and>
   buffers_ok (run_calls (yielding [10, 20]) Suc (init fresh_base)
     [IncreaseNextStoppingEpochs 5, TrainingStep () 0 0, TrainingEpochEnd (),
      OnPretrainRoutineEnd (callback_init 3) \<lparr>should_stop = False\<rparr>, SummaryWriter,
      SetReporter None, SoftUpdateResult])"
proof -
  have h: "registered_buffers fresh_base = []" by (simp add: fresh_base_def)
  from buffers_stay_single_element[OF h] h show ?thesis by blast
qed

text \<open>
  C8. \<^verbatim>\<open>__init__\<close> installs a DummyExperiment as the reporter;
  \<^verbatim>\<open>set_reporter(None)\<close> installs a DummyExperiment, \<^verbatim>\<open>set_reporter\<close> with a
  reporter installs that reporter, and both return self; after any sequence of
  method calls on a constructed module the reporter is not None.
\<close>

theorem reporter_never_none:
  "reporter (init base) = Some DummyExperiment \<and>
   reporter (snd (set_reporter m None)) = Some DummyExperiment \<and>
   reporter (snd (set_reporter m (Some r))) = Some r \<and>
   fst (set_reporter m x) = Returned (snd (set_reporter m x)) \<and>
   (snd (set_reporter m x))\<lparr>reporter_attr := reporter_attr m\<rparr> = m \<and>
   reporter (run_calls tsg igs (init base) cs) \<noteq> None"
proof -
  have "reporter_attr (init base) \<noteq> None"
    by (simp add: init_def register_buffer_def Let_def)
  then have "reporter_attr (run_calls tsg igs (init base) cs) \<noteq> None"
    by (rule run_calls_reporter)
  then show ?thesis
    by (simp add: reporter_def set_reporter_def init_def register_buffer_def Let_def)
qed

theorem reporter_never_none_witness:
  "reporter (snd (set_reporter (fresh_module 2) (Some (Reporter [1])))) = Some (Reporter [1]) \<and>
   reporter (run_calls (yielding [10, 20]) Suc (init fresh_base)
     [SetReporter (Some (Reporter [])), TrainingEpochEnd (), SetReporter None,
      TrainingStep () 0 0]) \<noteq> None"
  using reporter_never_none[of fresh_base "fresh_module 2" "Reporter [1]"]
  by blast

section \<open>The summary writer\<close>

text \<open>
  C10. The code departs from the claim. When \<^verbatim>\<open>self.logger\<close> is not the logger
  cached by the previous access and is not a LoggerCollection, the access of
  \<^verbatim>\<open>summary_writer\<close> does not return None: the \<^verbatim>\<open>elif\<close> test reads the local
  variable \<^verbatim>\<open>logger\<close>, which nothing has bound, and the access raises
  UnboundLocalError, after the cache has been invalidated.
\<close>

theorem summary_writer_raises_unbound_local:
  assumes "\<not> is_same (summary_writer_logger m) (logger m)"
    and "\<not> is_LoggerCollection (logger m)"
  shows "summary_writer m =
           (Raised (UnboundLocalError ''logger''),
            m\<lparr>summary_writer_attr := None, summary_writer_logger := logger m\<rparr>) \<and>
         fst (summary_writer m) \<noteq> Returned None"
  using assms
  by (simp add: summary_writer_def load_local_def Let_def)

theorem summary_writer_raises_unbound_local_witness:
  "\<not> is_same (summary_writer_logger (logging_module (TensorBoardLogger 1 5)))
       (logger (logging_module (TensorBoardLogger 1 5))) \<and>
   \<not> is_LoggerCollection (logger (logging_module (TensorBoardLogger 1 5))) \<and>
   summary_writer (logging_module (TensorBoardLogger 1 5)) =
     (Raised (UnboundLocalError ''logger''),
      (logging_module (TensorBoardLogger 1 5))
        \<lparr>summary_writer_logger := Some (TensorBoardLogger 1 5)\<rparr>)"
proof -
  have h1: "\<not> is_same (summary_writer_logger (logging_module (TensorBoardLogger 1 5)))
       (logger (logging_module (TensorBoardLogger 1 5)))"
    by (simp add: is_same_def logging_module_def fresh_module_def init_def register_buffer_def
        fresh_base_def)
  have h2: "\<not> is_LoggerCollection (logger (logging_module (TensorBoardLogger 1 5)))"
    by (simp add: logging_module_def)
  have "(logging_module (TensorBoardLogger 1 5))
      \<lparr>summary_writer_attr := None,
       summary_writer_logger := logger (logging_module (TensorBoardLogger 1 5))\<rparr> =
    (logging_module (TensorBoardLogger 1 5))
      \<lparr>summary_writer_logger := Some (TensorBoardLogger 1 5)\<rparr>"
    by (simp add: logging_module_def fresh_module_def init_def register_buffer_def
        fresh_base_def)
  with summary_writer_raises_unbound_local[OF h1 h2] h1 h2 show ?thesis by simp
qed

end
